theory Spec2Isabelle
  imports Main "HOL-Library.AList" "HOL-Library.Sublist"
begin

section \<open>Python strings\<close>

text \<open>
  A Python \<open>str\<close> is modelled as a \<open>string\<close>; each \<open>char\<close> stands for one code point
  below 256. \<open>str.isspace\<close> holds on exactly twelve code points of that range: tab, line
  feed, vertical tab, form feed, carriage return, the four separators 0x1C to 0x1F, the
  space, NEL (0x85) and the no-break space (0xA0).
\<close>

definition isspace :: "char \<Rightarrow> bool" where
  "isspace c = ((of_char c :: nat) \<in> {9, 10, 11, 12, 13, 28, 29, 30, 31, 32, 133, 160})"

text \<open>\<open>s.strip()\<close>: leading and trailing whitespace removed.\<close>

definition strip :: "string \<Rightarrow> string" where
  "strip s = rev (dropWhile isspace (rev (dropWhile isspace s)))"

text \<open>\<open>sub in s\<close> for strings: \<open>sub\<close> occurs as a contiguous piece of \<open>s\<close>.\<close>

fun str_in :: "string \<Rightarrow> string \<Rightarrow> bool" where
  "str_in sub [] = (sub = [])"
| "str_in sub (c # cs) = (prefix sub (c # cs) \<or> str_in sub cs)"

text \<open>
  \<open>s.split(sep)\<close> for a non-empty separator: the pieces between the occurrences of
  \<open>sep\<close>, found from left to right without overlap. The result is never empty. The
  source only calls it with the literals \<open>'\n'\<close> and \<open>' | '\<close>.
\<close>

fun split_str :: "string \<Rightarrow> string \<Rightarrow> string list" where
  "split_str sep [] = [[]]"
| "split_str sep (c # cs) =
     (if sep \<noteq> [] \<and> prefix sep (c # cs)
      then [] # split_str sep (drop (length sep - 1) cs)
      else (case split_str sep cs of [] \<Rightarrow> [[c]] | p # ps \<Rightarrow> (c # p) # ps))"

text \<open>
  \<open>a, b = s.split(':', 1)\<close>: the text before the first colon and the text after it. The
  source unpacks the two pieces only under the guard \<open>':' in s\<close> (for the sub-parts, on
  \<open>part.strip()\<close> under \<open>':' in part\<close>; stripping removes no colon, see
  \<open>colon_in_strip\<close>), so the list has two items and the unpacking cannot raise.
\<close>

definition split_colon :: "string \<Rightarrow> string \<times> string" where
  "split_colon s =
     (takeWhile (\<lambda>c. c \<noteq> CHR '':'') s, drop 1 (dropWhile (\<lambda>c. c \<noteq> CHR '':'') s))"

text \<open>\<open>str(n)\<close> of a non-negative integer, as the f-strings render a row number.\<close>

definition digit_char :: "nat \<Rightarrow> char" where
  "digit_char d = ''0123456789'' ! d"

function str_nat :: "nat \<Rightarrow> string" where
  "str_nat n = (if n < 10 then [digit_char n] else str_nat (n div 10) @ [digit_char (n mod 10)])"
  by pat_completeness auto
termination
  by (relation "measure id") auto

declare str_nat.simps [simp del]

section \<open>The field parser\<close>

text \<open>
  The dictionary \<open>data\<close> is an association list with distinct keys in insertion order;
  \<open>data[k] = v\<close> is \<open>AList.update k v data\<close>, which overwrites the value of a key that is
  present in place and appends a new key.
\<close>

type_synonym dict = "(string \<times> string) list"

definition dict_get :: "dict \<Rightarrow> string \<Rightarrow> string \<Rightarrow> string" where
  "dict_get data k dflt = (case map_of data k of None \<Rightarrow> dflt | Some v \<Rightarrow> v)"

text \<open>The body of \<open>for part in parts\<close> (lines 75 to 79).\<close>

definition assign_part :: "string \<Rightarrow> dict \<Rightarrow> string \<Rightarrow> dict" where
  "assign_part key data part =
     (if CHR '':'' \<in> set part
      then (let (sub_key, sub_value) = split_colon (strip part)
            in AList.update (strip sub_key) (strip sub_value) data)
      else AList.update key (strip part) data)"

fun parts_loop :: "string \<Rightarrow> dict \<Rightarrow> string list \<Rightarrow> dict" where
  "parts_loop key data [] = data"
| "parts_loop key data (part # parts) = parts_loop key (assign_part key data part) parts"

text \<open>The body of \<open>for line in result.stdout.split('\n')\<close> (lines 66 to 81).\<close>

definition parse_line :: "dict \<Rightarrow> string \<Rightarrow> dict" where
  "parse_line data line =
     (if CHR '':'' \<in> set line
      then (let (k, v) = split_colon line;
                key = strip k;
                val = strip v
            in if str_in '' | '' val
               then parts_loop key data (split_str '' | '' val)
               else AList.update key val data)
      else data)"

fun lines_loop :: "dict \<Rightarrow> string list \<Rightarrow> dict" where
  "lines_loop data [] = data"
| "lines_loop data (line # lines) = lines_loop (parse_line data line) lines"

definition parse_output :: "string \<Rightarrow> dict" where
  "parse_output stdout = lines_loop [] (split_str [CHR 0x0A] stdout)"

subsection \<open>What a line assigns\<close>

text \<open>
  The parser's effect is described by the assignments a line makes, in order. A text is
  read as \<open>key: value\<close> by cutting it at its first colon and trimming both sides. A
  sub-part with a colon is read as its own \<open>key: value\<close>; a sub-part without one is a
  value of the outer key. A line without a colon assigns nothing.
\<close>

definition key_value :: "string \<Rightarrow> string \<times> string" where
  "key_value s = (let (k, v) = split_colon s in (strip k, strip v))"

definition part_entry :: "string \<Rightarrow> string \<Rightarrow> string \<times> string" where
  "part_entry key part = (if CHR '':'' \<in> set part then key_value part else (key, strip part))"

definition line_entries :: "string \<Rightarrow> (string \<times> string) list" where
  "line_entries line =
     (if CHR '':'' \<in> set line
      then (let (key, val) = key_value line
            in if str_in '' | '' val then map (part_entry key) (split_str '' | '' val)
               else [(key, val)])
      else [])"

text \<open>The two halves of \<open>strip\<close>.\<close>

definition lstrip :: "string \<Rightarrow> string" where
  "lstrip s = dropWhile isspace s"

definition rstrip :: "string \<Rightarrow> string" where
  "rstrip s = rev (dropWhile isspace (rev s))"

section \<open>The outside world\<close>

text \<open>
  Everything the script prints is one of twelve messages; the model keeps which one and
  the values interpolated into it.
\<close>

datatype message =
    MsgSkippingEmpty
  | MsgFetching string
  | MsgErrorFetching string string
  | MsgException string
  | MsgNoUsernames
  | MsgTestMode
  | MsgBatchBreak nat
  | MsgSkipping string
  | MsgWaiting nat
  | MsgUpdated string
  | MsgErrorRow nat
  | MsgFailed

text \<open>
  The observable actions, in the order the script performs them: a line printed, a
  \<open>time.sleep\<close>, the \<open>subprocess.run\<close> of an argument vector, and the two calls of the
  spreadsheet service (spreadsheet id, range, and for the update the body's values).
\<close>

datatype event =
    Print message
  | Sleep nat
  | Run "string list"
  | Get string string
  | Update string string "string list list"

datatype py_error = ValueError | IndexError | ClientError

text \<open>
  What \<open>subprocess.run\<close> does: it raises (an \<open>Exception\<close>, which is what the handlers
  of the script catch), or it completes with a return code, the captured standard
  output and the captured standard error.
\<close>

datatype run_outcome = Raised | Completed int string string

text \<open>
  What \<open>sheet.values().get(...).execute()\<close> does: it raises, or it returns a response
  whose \<open>values\<close> entry may be absent.
\<close>

datatype get_outcome = GetRaised | GetResult "string list list option"

text \<open>
  The environment answers each call from the history of events so far and the call's
  arguments, so the same call may be answered differently at different times.
  \<open>client_raises\<close> stands for an exception of the Google client library while the
  service object is built.
\<close>

record env =
  getenv :: "string \<Rightarrow> string option"
  client_raises :: bool
  run_toutatis :: "event list \<Rightarrow> string list \<Rightarrow> run_outcome"
  values_get :: "event list \<Rightarrow> string \<Rightarrow> string \<Rightarrow> get_outcome"
  update_raises :: "event list \<Rightarrow> string \<Rightarrow> string \<Rightarrow> string list list \<Rightarrow> bool"

text \<open>
  The state threaded through the run: the events so far, and the spreadsheet as the
  values last written to each range by an update that succeeded. For an update that
  raises the model records no new value, although the service may have applied it; no
  claim below rests on that. Printing and sleeping are taken not to raise.
\<close>

record state =
  trace :: "event list"
  sheet :: "string \<Rightarrow> string list list option"

definition emit :: "event \<Rightarrow> state \<Rightarrow> state" where
  "emit e st = st\<lparr>trace := trace st @ [e]\<rparr>"

section \<open>Constants\<close>

definition OUTPUT_RANGE_START :: string where "OUTPUT_RANGE_START = ''G''"
definition OUTPUT_RANGE_END :: string where "OUTPUT_RANGE_END = ''M''"
definition RATE_LIMIT_DELAY :: nat where "RATE_LIMIT_DELAY = 30"
definition BATCH_SIZE :: nat where "BATCH_SIZE = 10"
definition BATCH_DELAY :: nat where "BATCH_DELAY = 300"

section \<open>get_google_sheets_service\<close>

definition env_truthy :: "string option \<Rightarrow> bool" where
  "env_truthy v = (case v of None \<Rightarrow> False | Some s \<Rightarrow> s \<noteq> [])"

definition get_google_sheets_service :: "env \<Rightarrow> py_error + unit" where
  "get_google_sheets_service e =
     (let client_id = getenv e ''GOOGLE_CLIENT_ID'';
          client_secret = getenv e ''GOOGLE_CLIENT_SECRET'';
          refresh_token = getenv e ''GOOGLE_REFRESH_TOKEN''
      in if \<not> (env_truthy client_id \<and> env_truthy client_secret \<and> env_truthy refresh_token)
         then Inl ValueError
         else if client_raises e then Inl ClientError
         else Inr ())"

section \<open>get_instagram_data\<close>

text \<open>
  The \<open>try\<close> block of lines 51 to 87: the handler turns an exception of the subprocess
  call into the result \<open>None\<close>. Parsing raises nothing.
\<close>

definition get_instagram_data :: "env \<Rightarrow> string \<Rightarrow> string \<Rightarrow> state \<Rightarrow> dict option \<times> state" where
  "get_instagram_data e username session_id st =
     (if username = [] then (None, emit (Print MsgSkippingEmpty) st)
      else
        (let st1 = emit (Print (MsgFetching username)) st;
             argv = [''toutatis'', ''-u'', strip username, ''-s'', session_id];
             st2 = emit (Run argv) st1
         in case run_toutatis e (trace st1) argv of
              Raised \<Rightarrow> (None, emit (Print (MsgException username)) st2)
            | Completed returncode out err \<Rightarrow>
                if returncode \<noteq> 0
                then (None, emit (Print (MsgErrorFetching username err)) st2)
                else (Some (parse_output out), st2)))"

section \<open>update_sheet\<close>

text \<open>The inner list of \<open>values\<close> (lines 132 to 146).\<close>

definition row_values :: "dict \<Rightarrow> string list" where
  "row_values data =
     [dict_get data ''Follower'' [],
      dict_get data ''Following'' [],
      dict_get data ''Number of posts'' [],
      dict_get data ''Biography'' [],
      dict_get data ''Full Name'' [],
      dict_get data ''Verified'' [],
      dict_get data ''Is private Account'' [],
      dict_get data ''Is buisness Account'' [],
      dict_get data ''userID'' [],
      dict_get data ''IGTV posts'' [],
      dict_get data ''Linked WhatsApp'' [],
      dict_get data ''Memorial Account'' [],
      dict_get data ''New Instagram user'' []]"

definition read_range :: string where
  "read_range = ''B2:'' @ OUTPUT_RANGE_END @ ''100''"

definition range_name :: "nat \<Rightarrow> string" where
  "range_name idx = OUTPUT_RANGE_START @ str_nat idx @ '':S'' @ str_nat idx"

text \<open>\<open>len(row) > 5 and any(row[5:])\<close>: a cell is truthy when it is not the empty string.\<close>

definition has_data :: "string list \<Rightarrow> bool" where
  "has_data row = (length row > 5 \<and> list_ex (\<lambda>cell. cell \<noteq> []) (drop 5 row))"

text \<open>
  Lines 112 to 114: the longer pause, taken at the start of the iteration when the row
  number minus two is a positive multiple of \<open>BATCH_SIZE\<close>.
\<close>

definition batch_pause :: "nat \<Rightarrow> state \<Rightarrow> state" where
  "batch_pause idx st =
     (if (idx - 2) mod BATCH_SIZE = 0 \<and> idx > 2
      then emit (Sleep BATCH_DELAY) (emit (Print (MsgBatchBreak BATCH_DELAY)) st)
      else st)"

text \<open>Lines 125 to 126: the delay before the profile request.\<close>

definition rate_wait :: "state \<Rightarrow> state" where
  "rate_wait st = emit (Sleep RATE_LIMIT_DELAY) (emit (Print (MsgWaiting RATE_LIMIT_DELAY)) st)"

text \<open>
  The body of the inner \<open>try\<close> (lines 111 to 159) for the row numbered \<open>idx\<close>. The test
  \<open>if data:\<close> holds for a dictionary with at least one key, not for \<open>None\<close>. \<open>Inr\<close> is
  the state when the body ends, also through \<open>continue\<close>; \<open>Inl\<close> is an exception together
  with the state at the moment it is raised: \<open>row[0]\<close> on a row without cells, and the
  update call.
\<close>

definition row_body ::
  "env \<Rightarrow> string \<Rightarrow> string \<Rightarrow> bool \<Rightarrow> nat \<Rightarrow> string list \<Rightarrow> state \<Rightarrow> (py_error \<times> state) + state" where
  "row_body e spreadsheet_id session_id force_update idx row st =
     (let st1 = batch_pause idx st
      in case row of
           [] \<Rightarrow> Inl (IndexError, st1)
         | cell0 # _ \<Rightarrow>
             (let username = strip cell0 in
              if has_data row \<and> \<not> force_update
              then Inr (emit (Print (MsgSkipping username)) st1)
              else
                (let st2 = rate_wait st1;
                     (data, st3) = get_instagram_data e username session_id st2
                 in case data of
                      None \<Rightarrow> Inr st3
                    | Some d \<Rightarrow>
                        if d = [] then Inr st3
                        else
                          (let vals = [row_values d];
                               st4 = emit (Update spreadsheet_id (range_name idx) vals) st3
                           in if update_raises e (trace st3) spreadsheet_id (range_name idx) vals
                              then Inl (ClientError, st4)
                              else Inr (emit (Sleep 2) (emit (Print (MsgUpdated username))
                                     (st4\<lparr>sheet := (sheet st4)(range_name idx \<mapsto> vals)\<rparr>)))))))"

text \<open>One iteration of the \<open>for\<close> loop: the body under its handler (lines 161 to 163).\<close>

definition process_row ::
  "env \<Rightarrow> string \<Rightarrow> string \<Rightarrow> bool \<Rightarrow> nat \<Rightarrow> string list \<Rightarrow> state \<Rightarrow> state" where
  "process_row e spreadsheet_id session_id force_update idx row st =
     (case row_body e spreadsheet_id session_id force_update idx row st of
        Inl (err, st') \<Rightarrow> emit (Print (MsgErrorRow idx)) st'
      | Inr st' \<Rightarrow> st')"

text \<open>\<open>for idx, row in enumerate(rows, start=2)\<close>, entered with \<open>idx = 2\<close>.\<close>

fun rows_loop ::
  "env \<Rightarrow> string \<Rightarrow> string \<Rightarrow> bool \<Rightarrow> nat \<Rightarrow> string list list \<Rightarrow> state \<Rightarrow> state" where
  "rows_loop e spreadsheet_id session_id force_update idx [] st = st"
| "rows_loop e spreadsheet_id session_id force_update idx (row # rows) st =
     rows_loop e spreadsheet_id session_id force_update (Suc idx) rows
       (process_row e spreadsheet_id session_id force_update idx row st)"

text \<open>
  \<open>update_sheet\<close>: an exception of \<open>get_google_sheets_service\<close> leaves the function
  (\<open>Inl\<close>); an exception of the read is handled by the outer handler (lines 165 to 166).
\<close>

definition update_sheet ::
  "env \<Rightarrow> string \<Rightarrow> string \<Rightarrow> bool \<Rightarrow> bool \<Rightarrow> state \<Rightarrow> py_error + state" where
  "update_sheet e spreadsheet_id session_id test_mode force_update st =
     (case get_google_sheets_service e of
        Inl err \<Rightarrow> Inl err
      | Inr _ \<Rightarrow>
          Inr (let st1 = emit (Get spreadsheet_id read_range) st
               in case values_get e (trace st) spreadsheet_id read_range of
                    GetRaised \<Rightarrow> emit (Print MsgFailed) st1
                  | GetResult result \<Rightarrow>
                      (let rows = (case result of None \<Rightarrow> [] | Some v \<Rightarrow> v)
                       in if rows = [] then emit (Print MsgNoUsernames) st1
                          else if test_mode
                          then rows_loop e spreadsheet_id session_id force_update 2 (take 1 rows)
                                 (emit (Print MsgTestMode) st1)
                          else rows_loop e spreadsheet_id session_id force_update 2 rows st1)))"

section \<open>Observations on a trace\<close>

definition is_run :: "event \<Rightarrow> bool" where
  "is_run ev = (case ev of Run _ \<Rightarrow> True | _ \<Rightarrow> False)"
definition is_update :: "event \<Rightarrow> bool" where
  "is_update ev = (case ev of Update _ _ _ \<Rightarrow> True | _ \<Rightarrow> False)"

text \<open>The keys read by \<open>row_values\<close>, in the order of the output columns G to S.\<close>

definition field_names :: "string list" where
  "field_names =
     [''Follower'', ''Following'', ''Number of posts'', ''Biography'', ''Full Name'', ''Verified'',
      ''Is private Account'', ''Is buisness Account'', ''userID'', ''IGTV posts'',
      ''Linked WhatsApp'', ''Memorial Account'', ''New Instagram user'']"

section \<open>Example inputs\<close>

text \<open>An output with a key that occurs twice and a value with the delimiter.\<close>

definition example_stdout :: string where
  "example_stdout = ''Biography: Hi | Love travel\<newline>Follower: 1\<newline>Follower: 2''"

text \<open>A plain line followed by a line with the same key and two sub-parts with colons.\<close>

definition piped_after_plain :: string where
  "piped_after_plain = ''A: 1\<newline>A: B: 2 | C: 3''"

text \<open>An output in the layout of the lookup tool, with all thirteen fields.\<close>

definition full_stdout :: string where
  "full_stdout = ''Informations about     : ann\<newline>userID                 : 4242\<newline>Full Name              : Ann Lee\<newline>Verified               : False | Is buisness Account : True\<newline>Is private Account     : False\<newline>Follower               : 120 | Following : 85\<newline>Number of posts        : 12\<newline>IGTV posts             : 0\<newline>Biography              : Love travel\<newline>Linked WhatsApp        : False\<newline>Memorial Account       : False\<newline>New Instagram user     : False''"

definition ok_getenv :: "string \<Rightarrow> string option" where
  "ok_getenv name = Some ''secret''"

definition init_state :: state where
  "init_state = \<lparr>trace = [], sheet = (\<lambda>r. None)\<rparr>"

text \<open>
  Two rows with a user name only; every lookup succeeds with one field; every update
  raises.
\<close>

definition failing_write_env :: env where
  "failing_write_env =
     \<lparr>getenv = ok_getenv, client_raises = False,
      run_toutatis = (\<lambda>h argv. Completed 0 ''Follower: 1'' []),
      values_get = (\<lambda>h sid r. GetResult (Some [[''alice''], [''bob'']])),
      update_raises = (\<lambda>h sid r v. True)\<rparr>"

text \<open>Eleven rows that all hold a value in column G already.\<close>

definition enriched_row :: "string list" where
  "enriched_row = [''u'', [], [], [], [], ''120'']"

definition enriched_env :: env where
  "enriched_env =
     \<lparr>getenv = ok_getenv, client_raises = False,
      run_toutatis = (\<lambda>h argv. Completed 0 ''Follower: 1'' []),
      values_get = (\<lambda>h sid r. GetResult (Some (replicate 11 enriched_row))),
      update_raises = (\<lambda>h sid r v. False)\<rparr>"

text \<open>An environment whose every lookup has the given outcome and whose updates succeed.\<close>

definition lookup_env :: "run_outcome \<Rightarrow> env" where
  "lookup_env outcome =
     \<lparr>getenv = ok_getenv, client_raises = False,
      run_toutatis = (\<lambda>h argv. outcome),
      values_get = (\<lambda>h sid r. GetResult None),
      update_raises = (\<lambda>h sid r v. False)\<rparr>"

section \<open>Facts about strings\<close>

lemma strip_alt: "strip s = rstrip (lstrip s)" by (simp add: strip_def lstrip_def rstrip_def)

lemma colon_not_space: "\<not> isspace CHR '':''" by (simp add: isspace_def)

lemma dropWhile_keep: "\<not> P y \<Longrightarrow> dropWhile P (xs @ y # ys) = dropWhile P xs @ y # ys"
  by (induction xs) auto

lemma lstrip_colon: "lstrip (a @ CHR '':'' # b) = lstrip a @ CHR '':'' # b"
  unfolding lstrip_def by (rule dropWhile_keep) (rule colon_not_space)

lemma rstrip_colon: "rstrip (a @ CHR '':'' # b) = a @ CHR '':'' # rstrip b"
  unfolding rstrip_def by (simp add: dropWhile_keep colon_not_space)

lemma strip_colon: "strip (a @ CHR '':'' # b) = lstrip a @ CHR '':'' # rstrip b"
  by (simp add: strip_alt lstrip_colon rstrip_colon)

lemma rstrip_Nil: "rstrip [] = []" by (simp add: rstrip_def)

lemma rstrip_Cons:
  "rstrip (x # xs) = (if isspace x \<and> (\<forall>y\<in>set xs. isspace y) then [] else x # rstrip xs)"
  by (auto simp: rstrip_def dropWhile_append)

lemma rstrip_all_space: "(\<forall>y\<in>set xs. isspace y) \<Longrightarrow> rstrip xs = []"
  by (simp add: rstrip_def)

lemma lstrip_all_space: "(\<forall>y\<in>set xs. isspace y) \<Longrightarrow> lstrip xs = []"
  by (simp add: lstrip_def)

lemma lstrip_rstrip: "lstrip (rstrip s) = rstrip (lstrip s)"
proof (induction s)
  case Nil
  show ?case by (simp add: lstrip_def rstrip_def)
next
  case (Cons x xs)
  show ?case
  proof (cases "isspace x")
    case True
    note sx = this
    show ?thesis
    proof (cases "\<forall>y\<in>set xs. isspace y")
      case True
      with sx show ?thesis
        by (simp add: rstrip_Cons lstrip_all_space rstrip_Nil)
    next
      case False
      with sx have "lstrip (rstrip (x # xs)) = lstrip (rstrip xs)"
        by (auto simp: rstrip_Cons lstrip_def)
      moreover from sx have "rstrip (lstrip (x # xs)) = rstrip (lstrip xs)"
        by (simp add: lstrip_def)
      ultimately show ?thesis using Cons.IH by simp
    qed
  next
    case False
    then show ?thesis by (simp add: rstrip_Cons) (simp add: lstrip_def rstrip_Cons)
  qed
qed

lemma strip_lstrip: "strip (lstrip s) = strip s"
  by (simp add: strip_alt) (simp add: lstrip_def)

lemma strip_rstrip: "strip (rstrip s) = strip s"
  by (simp add: strip_alt lstrip_rstrip) (simp add: rstrip_def)

lemma set_lstrip: "set (lstrip s) \<subseteq> set s"
  unfolding lstrip_def by (auto dest: set_dropWhileD)

lemma split_colon_at: "CHR '':'' \<notin> set a \<Longrightarrow> split_colon (a @ CHR '':'' # b) = (a, b)"
  by (simp add: split_colon_def takeWhile_append dropWhile_append)

lemma colon_decomp:
  assumes "CHR '':'' \<in> set s"
  obtains a b where "s = a @ CHR '':'' # b" and "CHR '':'' \<notin> set a"
  using assms split_list_first by metis

lemma colon_in_strip: "CHR '':'' \<in> set s \<Longrightarrow> CHR '':'' \<in> set (strip s)"
  by (erule colon_decomp) (simp add: strip_colon)

lemma key_value_strip:
  assumes "CHR '':'' \<in> set s" shows "key_value (strip s) = key_value s"
proof -
  from assms obtain a b where s: "s = a @ CHR '':'' # b" and a: "CHR '':'' \<notin> set a"
    by (rule colon_decomp)
  from a set_lstrip[of a] have "CHR '':'' \<notin> set (lstrip a)" by blast
  then have "split_colon (strip s) = (lstrip a, rstrip b)"
    by (simp add: s strip_colon split_colon_at)
  moreover from a have "split_colon s = (a, b)" by (simp add: s split_colon_at)
  ultimately show ?thesis by (simp add: key_value_def strip_lstrip strip_rstrip)
qed

section \<open>Facts about the parser\<close>

lemma assign_part_entry:
  "assign_part key data part = AList.update (fst (part_entry key part)) (snd (part_entry key part)) data"
proof (cases "CHR '':'' \<in> set part")
  case True
  have "assign_part key data part =
          AList.update (fst (key_value (strip part))) (snd (key_value (strip part))) data"
    using True by (simp add: assign_part_def key_value_def split: prod.splits)
  with True show ?thesis by (simp add: part_entry_def key_value_strip)
next
  case False
  then show ?thesis by (simp add: assign_part_def part_entry_def)
qed

lemma map_of_assign_part:
  "map_of (assign_part key data part) = map_of data ++ map_of [part_entry key part]"
  by (simp add: assign_part_entry update_conv' map_add_def fun_eq_iff)

lemma map_of_parts_loop:
  "map_of (parts_loop key data parts) = map_of data ++ map_of (rev (map (part_entry key) parts))"
proof (induction parts arbitrary: data)
  case Nil
  show ?case by simp
next
  case (Cons part parts)
  show ?case by (simp add: Cons.IH map_of_assign_part del: map_of.simps) 
qed

lemma map_of_parse_line:
  "map_of (parse_line data line) = map_of data ++ map_of (rev (line_entries line))"
  by (auto simp: parse_line_def line_entries_def key_value_def map_of_parts_loop update_conv'
      map_add_def fun_eq_iff split: prod.splits)

lemma map_of_lines_loop:
  "map_of (lines_loop data lines) = map_of data ++ map_of (rev (concat (map line_entries lines)))"
proof (induction lines arbitrary: data)
  case Nil
  show ?case by simp
next
  case (Cons line lines)
  show ?case by (simp add: Cons.IH map_of_parse_line)
qed

lemma map_of_parse_output:
  "map_of (parse_output out) = map_of (rev (concat (map line_entries (split_str [CHR 0x0A] out))))"
  by (simp add: parse_output_def map_of_lines_loop)

lemma split_str_no_sep: "c \<notin> set s \<Longrightarrow> split_str [c] s = [s]"
  by (induction s) auto

lemma split_str_not_Nil: "split_str sep s \<noteq> []"
  by (induction sep s rule: split_str.induct) (auto split: list.splits)

lemma update_not_Nil: "AList.update k v al \<noteq> []"
  by (cases al) auto

lemma assign_part_not_Nil: "assign_part key data part \<noteq> []"
  by (simp add: assign_part_def update_not_Nil split: prod.splits)

lemma parts_loop_not_Nil: "data \<noteq> [] \<or> parts \<noteq> [] \<Longrightarrow> parts_loop key data parts \<noteq> []"
  by (induction parts arbitrary: data) (auto simp: assign_part_not_Nil)

lemma parse_line_Nil_iff: "parse_line data line = [] \<longleftrightarrow> data = [] \<and> CHR '':'' \<notin> set line"
  by (auto simp: parse_line_def Let_def update_not_Nil parts_loop_not_Nil split_str_not_Nil
      split: prod.splits if_splits)

lemma lines_loop_Nil_iff:
  "lines_loop data lines = [] \<longleftrightarrow> data = [] \<and> (\<forall>line\<in>set lines. CHR '':'' \<notin> set line)"
  by (induction lines arbitrary: data) (auto simp: parse_line_Nil_iff)

lemma parse_output_Nil_iff:
  "parse_output out = [] \<longleftrightarrow> (\<forall>line\<in>set (split_str [CHR 0x0A] out). CHR '':'' \<notin> set line)"
  by (simp add: parse_output_def lines_loop_Nil_iff)

lemma map_of_rev_None: "k \<notin> fst ` set xs \<Longrightarrow> map_of (rev xs) k = None"
  by (simp add: map_of_eq_None_iff)

section \<open>Facts about the row loop\<close>

lemma trace_emit: "trace (emit ev st) = trace st @ [ev]" by (simp add: emit_def)
lemma sheet_emit: "sheet (emit ev st) = sheet st" by (simp add: emit_def)

lemma sheet_batch_pause: "sheet (batch_pause idx st) = sheet st"
  by (simp add: batch_pause_def sheet_emit)
lemma sheet_rate_wait: "sheet (rate_wait st) = sheet st"
  by (simp add: rate_wait_def sheet_emit)
lemma sheet_get_instagram_data: "sheet (snd (get_instagram_data e u s st)) = sheet st"
  by (simp add: get_instagram_data_def sheet_emit Let_def split: run_outcome.splits)

lemma updates_batch_pause: "filter is_update (trace (batch_pause idx st)) = filter is_update (trace st)"
  by (simp add: batch_pause_def trace_emit is_update_def)
lemma updates_rate_wait: "filter is_update (trace (rate_wait st)) = filter is_update (trace st)"
  by (simp add: rate_wait_def trace_emit is_update_def)
lemma updates_get_instagram_data:
  "filter is_update (trace (snd (get_instagram_data e u s st))) = filter is_update (trace st)"
  by (simp add: get_instagram_data_def trace_emit is_update_def Let_def split: run_outcome.splits)

lemma runs_batch_pause: "filter is_run (trace (batch_pause idx st)) = filter is_run (trace st)"
  by (simp add: batch_pause_def trace_emit is_run_def)

text \<open>The row body unfolded for a row that has a first cell and is not skipped.\<close>

lemma row_body_fetch:
  assumes "\<not> (has_data (cell0 # cells) \<and> \<not> force)"
    and "get_instagram_data e (strip cell0) sess (rate_wait (batch_pause idx st)) = (data, st3)"
  shows "row_body e sid sess force idx (cell0 # cells) st =
           (case data of
              None \<Rightarrow> Inr st3
            | Some d \<Rightarrow>
                if d = [] then Inr st3
                else if update_raises e (trace st3) sid (range_name idx) [row_values d]
                then Inl (ClientError, emit (Update sid (range_name idx) [row_values d]) st3)
                else Inr (emit (Sleep 2) (emit (Print (MsgUpdated (strip cell0)))
                       ((emit (Update sid (range_name idx) [row_values d]) st3)
                          \<lparr>sheet := (sheet st3)(range_name idx \<mapsto> [row_values d])\<rparr>))))"
  using assms by (auto simp: row_body_def Let_def sheet_emit split: option.splits)

lemma row_body_skip:
  assumes "has_data (cell0 # cells)" and "\<not> force"
  shows "row_body e sid sess force idx (cell0 # cells) st =
           Inr (emit (Print (MsgSkipping (strip cell0))) (batch_pause idx st))"
  using assms by (simp add: row_body_def Let_def)

lemma has_data_iff:
  "has_data row \<longleftrightarrow> (\<exists>i. 5 \<le> i \<and> i < length row \<and> row ! i \<noteq> [])"
proof
  assume "has_data row"
  then obtain c where l: "5 < length row" and c: "c \<in> set (drop 5 row)" "c \<noteq> []"
    by (auto simp: has_data_def list_ex_iff)
  from c(1) obtain j where "j < length (drop 5 row)" "drop 5 row ! j = c"
    by (auto simp: in_set_conv_nth)
  with c(2) have "5 \<le> 5 + j \<and> 5 + j < length row \<and> row ! (5 + j) \<noteq> []"
    by auto
  then show "\<exists>i. 5 \<le> i \<and> i < length row \<and> row ! i \<noteq> []" by blast
next
  assume "\<exists>i. 5 \<le> i \<and> i < length row \<and> row ! i \<noteq> []"
  then obtain i where i: "5 \<le> i" "i < length row" "row ! i \<noteq> []" by blast
  then have "drop 5 row ! (i - 5) = row ! i" and "i - 5 < length (drop 5 row)"
    by auto
  then have "row ! i \<in> set (drop 5 row)" by (metis nth_mem)
  with i show "has_data row" by (auto simp: has_data_def list_ex_iff)
qed

lemma row_values_map: "row_values data = map (\<lambda>k. dict_get data k []) field_names"
  by (simp add: row_values_def field_names_def)

lemma length_field_names: "length field_names = 13"
  by (simp add: field_names_def)

lemma service_ok: "get_google_sheets_service failing_write_env = Inr ()"
  by (simp add: get_google_sheets_service_def failing_write_env_def ok_getenv_def env_truthy_def)

lemmas eval_defs =
  emit_def read_range_def range_name_def
  OUTPUT_RANGE_END_def OUTPUT_RANGE_START_def str_nat.simps digit_char_def
  process_row_def row_body_def batch_pause_def rate_wait_def has_data_def
  get_instagram_data_def strip_def isspace_def parse_output_def parse_line_def
  split_colon_def row_values_def dict_get_def BATCH_SIZE_def RATE_LIMIT_DELAY_def
  BATCH_DELAY_def Let_def

lemma read_exception_aborts:
  assumes "get_google_sheets_service e = Inr ()"
    and "values_get e (trace st) sid read_range = GetRaised"
  shows "update_sheet e sid sess test_mode force st =
           Inr (emit (Print MsgFailed) (emit (Get sid read_range) st))"
  using assms by (simp add: update_sheet_def)

section \<open>Claims about the parser\<close>

text \<open>
  C3, as stated: every line of the output that contains a colon ends up in the mapping
  as its trimmed key mapped to its trimmed value. This fails on \<open>example_stdout\<close>
  twice. Its line \<open>Follower: 1\<close> has the key \<open>Follower\<close> and the value \<open>1\<close>, but the
  later line \<open>Follower: 2\<close> overwrites it; its line \<open>Biography: Hi | Love travel\<close> has the
  value \<open>Hi | Love travel\<close>, but the mapping holds only the last sub-part.
\<close>

theorem parse_output_line_value_counterexample:
  "''Follower: 1'' \<in> set (split_str [CHR 0x0A] example_stdout)
   \<and> CHR '':'' \<in> set ''Follower: 1''
   \<and> key_value ''Follower: 1'' = (''Follower'', ''1'')
   \<and> map_of (parse_output example_stdout) ''Follower'' = Some ''2''
   \<and> ''Biography: Hi | Love travel'' \<in> set (split_str [CHR 0x0A] example_stdout)
   \<and> CHR '':'' \<in> set ''Biography: Hi | Love travel''
   \<and> key_value ''Biography: Hi | Love travel'' = (''Biography'', ''Hi | Love travel'')
   \<and> map_of (parse_output example_stdout) ''Biography'' = Some ''Love travel''"
  by (simp add: example_stdout_def parse_output_def parse_line_def key_value_def split_colon_def strip_def isspace_def
        assign_part_def)

text \<open>
  C3, amended: for every line of the output that contains a colon and whose trimmed
  value does not contain the delimiter \<open>" | "\<close>, the output mapping maps the line's
  trimmed key to its trimmed value, provided no later line assigns that key.
\<close>

theorem parse_output_unpiped_unshadowed:
  assumes "split_str [CHR 0x0A] out = before @ line # after"
    and "CHR '':'' \<in> set line" and "key_value line = (key, val)"
    and "\<not> str_in '' | '' val"
    and "\<forall>l\<in>set after. key \<notin> fst ` set (line_entries l)"
  shows "map_of (parse_output out) key = Some val"
proof -
  from assms(2-4) have le: "line_entries line = [(key, val)]"
    by (simp add: line_entries_def)
  from assms(5) have "key \<notin> fst ` set (concat (map line_entries after))"
    by auto
  then have "map_of (rev (concat (map line_entries after))) key = None"
    by (rule map_of_rev_None)
  then show ?thesis
    by (simp add: map_of_parse_output assms(1) le map_add_def)
qed

theorem parse_output_unpiped_unshadowed_witness:
  "map_of (parse_output ''Follower: 1\<newline>Follower: 2\<newline>Name: x | y'') ''Follower'' = Some ''2''"
proof -
  have "split_str [CHR 0x0A] ''Follower: 1\<newline>Follower: 2\<newline>Name: x | y'' = [''Follower: 1''] @ ''Follower: 2'' # [''Name: x | y'']"
    by simp
  from parse_output_unpiped_unshadowed [OF this, of "''Follower''" "''2''"] show ?thesis
    by (simp add: line_entries_def part_entry_def key_value_def split_colon_def strip_def isspace_def)
qed

text \<open>
  C4: when the trimmed value of a line contains \<open>" | "\<close>, the line's effect on the
  mapping is that of the assignments \<open>part_entry key part\<close> of its sub-parts, taken in
  order with later ones overwriting earlier ones (a lookup in the reversed list finds the
  last assignment of a key): a sub-part with a colon assigns its own key and value, a
  sub-part without one assigns its trimmed text to the outer key. The code reads a
  sub-part with a colon after trimming it, which gives the same pair as reading it as it
  stands (\<open>key_value_strip\<close>). The line \<open>Biography: Hi | Love travel\<close> alone yields the
  single entry \<open>Biography\<close> mapped to \<open>Love travel\<close>.
\<close>

theorem parse_line_pipe_parts:
  assumes "CHR '':'' \<in> set line" and "key_value line = (key, val)" and "str_in '' | '' val"
  shows "map_of (parse_line data line) =
           map_of data ++ map_of (rev (map (part_entry key) (split_str '' | '' val)))
         \<and> parse_output ''Biography: Hi | Love travel'' = [(''Biography'', ''Love travel'')]"
proof
  from assms have "line_entries line = map (part_entry key) (split_str '' | '' val)"
    by (simp add: line_entries_def)
  then show "map_of (parse_line data line) =
           map_of data ++ map_of (rev (map (part_entry key) (split_str '' | '' val)))"
    by (simp add: map_of_parse_line)
  show "parse_output ''Biography: Hi | Love travel'' = [(''Biography'', ''Love travel'')]"
    by (simp add: parse_output_def parse_line_def split_colon_def strip_def isspace_def
        assign_part_def)
qed

theorem parse_line_pipe_parts_witness:
  "CHR '':'' \<in> set ''Follower: 120 | Following: 85 | n/a''
   \<and> key_value ''Follower: 120 | Following: 85 | n/a'' = (''Follower'', ''120 | Following: 85 | n/a'')
   \<and> str_in '' | '' ''120 | Following: 85 | n/a''
   \<and> map_of (parse_line [(''Following'', ''7'')] ''Follower: 120 | Following: 85 | n/a'') =
       [''Following'' \<mapsto> ''85'', ''Follower'' \<mapsto> ''n/a'']"
proof -
  have h1: "CHR '':'' \<in> set ''Follower: 120 | Following: 85 | n/a''" by simp
  have h2: "key_value ''Follower: 120 | Following: 85 | n/a'' = (''Follower'', ''120 | Following: 85 | n/a'')"
    by (simp add: key_value_def split_colon_def strip_def isspace_def)
  have h3: "str_in '' | '' ''120 | Following: 85 | n/a''" by simp
  have "map_of (parse_line [(''Following'', ''7'')] ''Follower: 120 | Following: 85 | n/a'') =
       [''Following'' \<mapsto> ''85'', ''Follower'' \<mapsto> ''n/a'']"
    using parse_line_pipe_parts [OF h1 h2 h3, of "[(''Following'', ''7'')]"]
    by (auto simp add: part_entry_def key_value_def split_colon_def strip_def isspace_def fun_eq_iff map_add_def)
  with h1 h2 h3 show ?thesis by blast
qed

text \<open>
  C10, as stated: a line whose trimmed value contains \<open>" | "\<close> and whose sub-parts all
  contain a colon has its outer key absent from the resulting mapping, unless a sub-key
  equals the outer key. This fails on \<open>piped_after_plain\<close>: its second line has the
  outer key \<open>A\<close> and the sub-parts \<open>B: 2\<close> and \<open>C: 3\<close>, with the sub-keys \<open>B\<close> and \<open>C\<close>, but
  the first line has assigned \<open>A\<close>, and the mapping holds \<open>A\<close> mapped to \<open>1\<close>.
\<close>

theorem outer_key_present_counterexample:
  "split_str [CHR 0x0A] piped_after_plain = [''A: 1'', ''A: B: 2 | C: 3'']
   \<and> CHR '':'' \<in> set ''A: B: 2 | C: 3''
   \<and> key_value ''A: B: 2 | C: 3'' = (''A'', ''B: 2 | C: 3'')
   \<and> str_in '' | '' ''B: 2 | C: 3''
   \<and> split_str '' | '' ''B: 2 | C: 3'' = [''B: 2'', ''C: 3'']
   \<and> CHR '':'' \<in> set ''B: 2'' \<and> CHR '':'' \<in> set ''C: 3''
   \<and> fst (key_value ''B: 2'') = ''B'' \<and> fst (key_value ''C: 3'') = ''C''
   \<and> parse_output piped_after_plain = [(''A'', ''1''), (''B'', ''2''), (''C'', ''3'')]
   \<and> map_of (parse_output piped_after_plain) ''A'' = Some ''1''"
  by (simp add: piped_after_plain_def parse_output_def parse_line_def key_value_def
      split_colon_def strip_def isspace_def assign_part_def)

text \<open>
  C10, amended: a line whose trimmed value contains \<open>" | "\<close>, whose sub-parts all
  contain a colon and none of whose sub-keys equals the outer key does not assign its
  outer key: parsing it leaves what the mapping holds for that key as it was, and the
  outer key is absent from the output's mapping provided no other line of the output
  assigns it.
\<close>

theorem outer_key_absent_unless_assigned_elsewhere:
  assumes "split_str [CHR 0x0A] out = before @ line # after"
    and "CHR '':'' \<in> set line" and "key_value line = (key, val)" and "str_in '' | '' val"
    and "\<forall>part\<in>set (split_str '' | '' val). CHR '':'' \<in> set part"
    and "\<forall>part\<in>set (split_str '' | '' val). fst (key_value part) \<noteq> key"
    and "\<forall>l\<in>set before \<union> set after. key \<notin> fst ` set (line_entries l)"
  shows "map_of (parse_line data line) key = map_of data key
         \<and> map_of (parse_output out) key = None"
proof -
  from assms(2-4) have le: "line_entries line = map (part_entry key) (split_str '' | '' val)"
    by (simp add: line_entries_def)
  from assms(5,6) have own: "key \<notin> fst ` set (line_entries line)"
    by (auto simp: le part_entry_def)
  then have "map_of (rev (line_entries line)) key = None"
    by (rule map_of_rev_None)
  then have one: "map_of (parse_line data line) key = map_of data key"
    by (simp add: map_of_parse_line map_add_def)
  from own assms(7)
  have "key \<notin> fst ` set (concat (map line_entries (before @ line # after)))"
    by auto
  then have "map_of (rev (concat (map line_entries (before @ line # after)))) key = None"
    by (rule map_of_rev_None)
  then have "map_of (parse_output out) key = None"
    by (simp only: map_of_parse_output assms(1))
  with one show ?thesis by simp
qed

theorem outer_key_absent_unless_assigned_elsewhere_witness:
  "map_of (parse_output ''X: 1\<newline>A: B: 2 | C: 3\<newline>Y: 2'') ''A'' = None
   \<and> map_of (parse_output ''X: 1\<newline>A: B: 2 | C: 3\<newline>Y: 2'') ''B'' = Some ''2''"
proof -
  have h0: "split_str [CHR 0x0A] ''X: 1\<newline>A: B: 2 | C: 3\<newline>Y: 2'' =
              [''X: 1''] @ ''A: B: 2 | C: 3'' # [''Y: 2'']" by simp
  have h1: "CHR '':'' \<in> set ''A: B: 2 | C: 3''" by simp
  have h2: "key_value ''A: B: 2 | C: 3'' = (''A'', ''B: 2 | C: 3'')"
    by (simp add: key_value_def split_colon_def strip_def isspace_def)
  have h3: "str_in '' | '' ''B: 2 | C: 3''" by simp
  have h4: "\<forall>part\<in>set (split_str '' | '' ''B: 2 | C: 3''). CHR '':'' \<in> set part" by simp
  have h5: "\<forall>part\<in>set (split_str '' | '' ''B: 2 | C: 3''). fst (key_value part) \<noteq> ''A''"
    by (simp add: key_value_def split_colon_def strip_def isspace_def)
  have h6: "\<forall>l\<in>set [''X: 1''] \<union> set [''Y: 2'']. ''A'' \<notin> fst ` set (line_entries l)"
    by (simp add: line_entries_def key_value_def split_colon_def strip_def isspace_def)
  have "map_of (parse_output ''X: 1\<newline>A: B: 2 | C: 3\<newline>Y: 2'') ''A'' = None"
    using outer_key_absent_unless_assigned_elsewhere [OF h0 h1 h2 h3 h4 h5 h6, of "[]"] by simp
  moreover have "map_of (parse_output ''X: 1\<newline>A: B: 2 | C: 3\<newline>Y: 2'') ''B'' = Some ''2''"
    by (simp add: parse_output_def parse_line_def split_colon_def strip_def isspace_def
        assign_part_def Let_def)
  ultimately show ?thesis by simp
qed

section \<open>Claims about the row loop\<close>

text \<open>
  C1, evaluated on the code: the read at the start of \<open>update_sheet\<close> asks for
  \<open>B2:M100\<close>, since \<open>OUTPUT_RANGE_END\<close> is \<open>M\<close>, while the write of a row goes from column
  G through column S. The read range ends six columns before the write range does.
\<close>

theorem read_range_ends_before_write_range: "read_range = ''B2:M100'' \<and> range_name 2 = ''G2:S2'' \<and> range_name 100 = ''G100:S100''"
  by (simp add: read_range_def range_name_def OUTPUT_RANGE_END_def OUTPUT_RANGE_START_def
      str_nat.simps digit_char_def)

text \<open>
  C2, as stated: after an exception of a row's update call no later row is processed.
  This fails with two rows whose updates both raise: the exception of row 2 is logged,
  and row 3 is fetched and its update attempted.
\<close>

theorem write_exception_next_row_counterexample:
  "map_sum id trace (update_sheet failing_write_env ''sheet1'' ''sess'' False False init_state) =
     Inr [Get ''sheet1'' ''B2:M100'',
          Print (MsgWaiting 30), Sleep 30, Print (MsgFetching ''alice''),
          Run [''toutatis'', ''-u'', ''alice'', ''-s'', ''sess''],
          Update ''sheet1'' ''G2:S2'' [[''1'', [], [], [], [], [], [], [], [], [], [], [], []]],
          Print (MsgErrorRow 2),
          Print (MsgWaiting 30), Sleep 30, Print (MsgFetching ''bob''),
          Run [''toutatis'', ''-u'', ''bob'', ''-s'', ''sess''],
          Update ''sheet1'' ''G3:S3'' [[''1'', [], [], [], [], [], [], [], [], [], [], [], []]],
          Print (MsgErrorRow 3)]"
  by (simp add: update_sheet_def service_ok)
     (simp add: failing_write_env_def init_state_def emit_def read_range_def range_name_def
      OUTPUT_RANGE_END_def OUTPUT_RANGE_START_def str_nat.simps digit_char_def
      process_row_def row_body_def batch_pause_def rate_wait_def has_data_def
      get_instagram_data_def strip_def isspace_def parse_output_def parse_line_def
      split_colon_def row_values_def dict_get_def BATCH_SIZE_def RATE_LIMIT_DELAY_def
      BATCH_DELAY_def Let_def)

text \<open>
  C2, amended: when the update call of a row raises, the exception is logged and the
  loop goes on with the next row; the run is not aborted.
\<close>

theorem write_exception_loop_continues:
  assumes "\<not> (has_data (cell0 # cells) \<and> \<not> force)"
    and "get_instagram_data e (strip cell0) sess (rate_wait (batch_pause idx st)) = (Some d, st3)"
    and "d \<noteq> []"
    and "update_raises e (trace st3) sid (range_name idx) [row_values d]"
    and "st' = emit (Print (MsgErrorRow idx)) (emit (Update sid (range_name idx) [row_values d]) st3)"
  shows "process_row e sid sess force idx (cell0 # cells) st = st'
         \<and> rows_loop e sid sess force idx ((cell0 # cells) # rest) st =
             rows_loop e sid sess force (Suc idx) rest st'"
proof -
  have body: "row_body e sid sess force idx (cell0 # cells) st =
                Inl (ClientError, emit (Update sid (range_name idx) [row_values d]) st3)"
    using assms(3,4) by (simp add: row_body_fetch [OF assms(1,2)])
  then have pr: "process_row e sid sess force idx (cell0 # cells) st = st'"
    by (simp add: process_row_def assms(5))
  then show ?thesis by simp
qed

theorem write_exception_loop_continues_witness:
  "trace (process_row failing_write_env ''sheet1'' ''sess'' False 2 [''alice''] init_state) =
     [Print (MsgWaiting 30), Sleep 30, Print (MsgFetching ''alice''),
      Run [''toutatis'', ''-u'', ''alice'', ''-s'', ''sess''],
      Update ''sheet1'' ''G2:S2'' [[''1'', [], [], [], [], [], [], [], [], [], [], [], []]],
      Print (MsgErrorRow 2)]
   \<and> rows_loop failing_write_env ''sheet1'' ''sess'' False 2 [[''alice''], [''bob'']] init_state =
       rows_loop failing_write_env ''sheet1'' ''sess'' False 3 [[''bob'']]
         (process_row failing_write_env ''sheet1'' ''sess'' False 2 [''alice''] init_state)"
proof -
  let ?st3 = "\<lparr>trace = [Print (MsgWaiting 30), Sleep 30, Print (MsgFetching ''alice''),
      Run [''toutatis'', ''-u'', ''alice'', ''-s'', ''sess'']], sheet = (\<lambda>r. None)\<rparr>"
  have h1: "\<not> (has_data (''alice'' # []) \<and> \<not> False)" by (simp add: has_data_def)
  have h2: "get_instagram_data failing_write_env (strip ''alice'') ''sess''
              (rate_wait (batch_pause 2 init_state))
             = (Some [(''Follower'', ''1'')], ?st3)"
    by (simp add: failing_write_env_def init_state_def eval_defs)
  have h3: "[(''Follower'', ''1'')] \<noteq> []" by simp
  have h4: "update_raises failing_write_env (trace ?st3) ''sheet1'' (range_name 2)
              [row_values [(''Follower'', ''1'')]]"
    by (simp add: failing_write_env_def)
  have rn: "range_name 2 = ''G2:S2''"
    by (simp add: range_name_def OUTPUT_RANGE_START_def str_nat.simps digit_char_def)
  have rv: "row_values [(''Follower'', ''1'')] = [''1'', [], [], [], [], [], [], [], [], [], [], [], []]"
    by (simp add: row_values_def dict_get_def)
  have s3: "Suc 2 = 3" by simp
  from write_exception_loop_continues [OF h1 h2 h3 h4 refl, of "[[''bob'']]"]
  show ?thesis
    by (simp only: s3) (simp add: rn rv emit_def)
qed

text \<open>
  C5, evaluated on the code: with eleven rows that are all skipped for holding data
  already, no profile request is made, and yet the long pause is taken before the
  eleventh row: the pause follows the row number, not the number of requests.
\<close>

theorem batch_pause_counts_skipped_rows:
  "map_sum id trace (update_sheet enriched_env ''sheet1'' ''sess'' False False init_state) =
     Inr (Get ''sheet1'' ''B2:M100'' # replicate 10 (Print (MsgSkipping ''u'')) @
          [Print (MsgBatchBreak 300), Sleep 300, Print (MsgSkipping ''u'')])"
proof -
  have srv: "get_google_sheets_service enriched_env = Inr ()"
    by (simp add: get_google_sheets_service_def enriched_env_def ok_getenv_def env_truthy_def)
  have rows: "\<And>h sid r. values_get enriched_env h sid r =
      GetResult (Some [enriched_row, enriched_row, enriched_row, enriched_row, enriched_row,
        enriched_row, enriched_row, enriched_row, enriched_row, enriched_row, enriched_row])"
    by (simp add: enriched_env_def eval_nat_numeral)
  have ten: "replicate 10 (Print (MsgSkipping ''u'')) = [Print (MsgSkipping ''u''),
     Print (MsgSkipping ''u''), Print (MsgSkipping ''u''), Print (MsgSkipping ''u''),
     Print (MsgSkipping ''u''), Print (MsgSkipping ''u''), Print (MsgSkipping ''u''),
     Print (MsgSkipping ''u''), Print (MsgSkipping ''u''), Print (MsgSkipping ''u'')]"
    by (simp add: eval_nat_numeral)
  have hd: "has_data enriched_row" by (simp add: has_data_def enriched_row_def)
  have skip: "\<And>idx st. process_row enriched_env ''sheet1'' ''sess'' False idx enriched_row st =
                 emit (Print (MsgSkipping ''u'')) (batch_pause idx st)"
    using hd by (simp add: process_row_def row_body_def Let_def)
       (simp add: enriched_row_def strip_def isspace_def)
  show ?thesis
    by (simp add: update_sheet_def srv rows ten)
       (simp add: skip batch_pause_def emit_def init_state_def read_range_def
          OUTPUT_RANGE_END_def BATCH_SIZE_def BATCH_DELAY_def)
qed

text \<open>
  C6: a row with a non-empty cell at an index of 5 or more is skipped when the force
  flag is not set: the iteration prints the skip message (after the batch pause that the
  row number may call for) and does nothing else, so it runs no lookup, issues no update
  and leaves the sheet alone. With the force flag set the row is processed exactly as
  the same row without its cells from index 5 on is processed without the flag.
\<close>

theorem enriched_row_skipped_unless_forced:
  assumes "row = cell0 # cells" and "5 \<le> i" and "i < length row" and "row ! i \<noteq> []"
  shows "(\<not> force \<longrightarrow>
            process_row e sid sess force idx row st =
              emit (Print (MsgSkipping (strip cell0))) (batch_pause idx st)
          \<and> filter is_run (trace (process_row e sid sess force idx row st)) = filter is_run (trace st)
          \<and> filter is_update (trace (process_row e sid sess force idx row st)) =
              filter is_update (trace st)
          \<and> sheet (process_row e sid sess force idx row st) = sheet st)
       \<and> (force \<longrightarrow>
            \<not> has_data (take 5 row)
          \<and> process_row e sid sess force idx row st =
              process_row e sid sess False idx (take 5 row) st)"
proof -
  from assms(2-4) have hd: "has_data row" by (auto simp: has_data_iff)
  have tk: "take 5 row = cell0 # take 4 cells"
    by (simp add: assms(1) eval_nat_numeral)
  have nd: "\<not> has_data (take 5 row)" by (simp add: has_data_def)
  obtain data st3 where
    g: "get_instagram_data e (strip cell0) sess (rate_wait (batch_pause idx st)) = (data, st3)"
    by fastforce
  have "force \<Longrightarrow> row_body e sid sess force idx row st = row_body e sid sess False idx (take 5 row) st"
  proof -
    assume f: force
    then have a: "\<not> (has_data (cell0 # cells) \<and> \<not> force)" by simp
    from nd have b: "\<not> (has_data (cell0 # take 4 cells) \<and> \<not> False)" by (simp add: tk)
    show ?thesis
      unfolding assms(1) tk [unfolded assms(1)]
      by (simp only: row_body_fetch [OF a g] row_body_fetch [OF b g])
  qed
  then have frc: "force \<Longrightarrow> process_row e sid sess force idx row st =
              process_row e sid sess False idx (take 5 row) st"
    by (simp add: process_row_def)
  have sk: "\<not> force \<Longrightarrow> process_row e sid sess force idx row st =
              emit (Print (MsgSkipping (strip cell0))) (batch_pause idx st)"
    using hd by (simp add: assms(1) process_row_def row_body_skip)
  show ?thesis
    using nd frc sk
    by (auto simp: trace_emit sheet_emit sheet_batch_pause runs_batch_pause updates_batch_pause
        is_run_def is_update_def)
qed

theorem enriched_row_skipped_unless_forced_witness:
  "has_data enriched_row
   \<and> process_row enriched_env ''sheet1'' ''sess'' False 12 enriched_row init_state =
       \<lparr>trace = [Print (MsgBatchBreak 300), Sleep 300, Print (MsgSkipping ''u'')],
        sheet = (\<lambda>r. None)\<rparr>
   \<and> trace (process_row enriched_env ''sheet1'' ''sess'' True 12 enriched_row init_state) =
       [Print (MsgBatchBreak 300), Sleep 300, Print (MsgWaiting 30), Sleep 30,
        Print (MsgFetching ''u''), Run [''toutatis'', ''-u'', ''u'', ''-s'', ''sess''],
        Update ''sheet1'' ''G12:S12'' [[''1'', [], [], [], [], [], [], [], [], [], [], [], []]],
        Print (MsgUpdated ''u''), Sleep 2]"
proof -
  have r: "enriched_row = ''u'' # [[], [], [], [], ''120'']" by (simp add: enriched_row_def)
  have h: "has_data enriched_row" by (simp add: has_data_def enriched_row_def)
  have i1: "(5::nat) \<le> 5" by simp
  have i2: "5 < length enriched_row" by (simp add: enriched_row_def)
  have i3: "enriched_row ! 5 \<noteq> []" by (simp add: enriched_row_def)
  have s: "strip ''u'' = ''u''" by (simp add: strip_def isspace_def)
  have a: "process_row enriched_env ''sheet1'' ''sess'' False 12 enriched_row init_state =
       \<lparr>trace = [Print (MsgBatchBreak 300), Sleep 300, Print (MsgSkipping ''u'')],
        sheet = (\<lambda>r. None)\<rparr>"
    using enriched_row_skipped_unless_forced [OF r i1 i2 i3, of False enriched_env "''sheet1''" "''sess''" 12 init_state]
    by (simp add: s init_state_def batch_pause_def emit_def BATCH_SIZE_def BATCH_DELAY_def)
  have b: "trace (process_row enriched_env ''sheet1'' ''sess'' True 12 enriched_row init_state) =
       [Print (MsgBatchBreak 300), Sleep 300, Print (MsgWaiting 30), Sleep 30,
        Print (MsgFetching ''u''), Run [''toutatis'', ''-u'', ''u'', ''-s'', ''sess''],
        Update ''sheet1'' ''G12:S12'' [[''1'', [], [], [], [], [], [], [], [], [], [], [], []]],
        Print (MsgUpdated ''u''), Sleep 2]"
    using enriched_row_skipped_unless_forced [OF r i1 i2 i3, of True enriched_env "''sheet1''" "''sess''" 12 init_state]
    by (simp add: enriched_row_def) (simp add: enriched_env_def init_state_def eval_defs)
  from h a b show ?thesis by simp
qed

text \<open>
  C7: when a row's fetch returns a non-empty record, the update call issued for the row
  carries one row of values, \<open>row_values\<close> of the record, and a successful update stores
  it. That row has thirteen cells; cell \<open>i\<close> is the record's value for the \<open>i\<close>-th field
  name as it stands, and the empty string when the record lacks that field. So a record
  with all thirteen fields is written as exactly its thirteen values in the fixed order.
\<close>

theorem written_row_positional:
  assumes "\<not> (has_data (cell0 # cells) \<and> \<not> force)"
    and "get_instagram_data e (strip cell0) sess (rate_wait (batch_pause idx st)) = (Some d, st3)"
    and "d \<noteq> []"
  shows "(\<exists>rest. trace (process_row e sid sess force idx (cell0 # cells) st) =
                    trace st3 @ Update sid (range_name idx) [row_values d] # rest)
         \<and> (\<not> update_raises e (trace st3) sid (range_name idx) [row_values d] \<longrightarrow>
              sheet (process_row e sid sess force idx (cell0 # cells) st) (range_name idx) =
                Some [row_values d])
         \<and> length (row_values d) = 13
         \<and> (\<forall>i<13. row_values d ! i =
                      (case map_of d (field_names ! i) of None \<Rightarrow> [] | Some v \<Rightarrow> v))
         \<and> (\<forall>vs. length vs = 13 \<and> (\<forall>i<13. map_of d (field_names ! i) = Some (vs ! i))
                \<longrightarrow> row_values d = vs)"
proof -
  have ev: "\<exists>rest. trace (process_row e sid sess force idx (cell0 # cells) st) =
                    trace st3 @ Update sid (range_name idx) [row_values d] # rest"
    using assms(3) by (simp add: process_row_def row_body_fetch [OF assms(1,2)] trace_emit)
  have sh: "\<not> update_raises e (trace st3) sid (range_name idx) [row_values d] \<longrightarrow>
              sheet (process_row e sid sess force idx (cell0 # cells) st) (range_name idx) =
                Some [row_values d]"
    using assms(3) by (simp add: process_row_def row_body_fetch [OF assms(1,2)] sheet_emit)
  have len: "length (row_values d) = 13"
    by (simp add: row_values_map length_field_names)
  have pos: "\<forall>i<13. row_values d ! i =
                      (case map_of d (field_names ! i) of None \<Rightarrow> [] | Some v \<Rightarrow> v)"
    by (simp add: row_values_map length_field_names dict_get_def)
  have "\<And>vs. length vs = 13 \<Longrightarrow> \<forall>i<13. map_of d (field_names ! i) = Some (vs ! i)
           \<Longrightarrow> row_values d = vs"
  proof -
    fix vs :: "string list"
    assume l: "length vs = 13" and a: "\<forall>i<13. map_of d (field_names ! i) = Some (vs ! i)"
    show "row_values d = vs"
    proof (rule nth_equalityI)
      show "length (row_values d) = length vs" by (simp add: len l)
    next
      fix i assume "i < length (row_values d)"
      then have "i < 13" by (simp add: len)
      with pos a show "row_values d ! i = vs ! i" by simp
    qed
  qed
  with ev sh len pos show ?thesis by blast
qed

theorem written_row_positional_witness:
  "sheet (process_row (lookup_env (Completed 0 full_stdout [])) ''sheet1'' ''sess'' False 2 [''ann'']
            init_state) ''G2:S2'' =
     Some [[''120'', ''85'', ''12'', ''Love travel'', ''Ann Lee'', ''False'', ''False'', ''True'',
            ''4242'', ''0'', ''False'', ''False'', ''False'']]
   \<and> row_values [(''Follower'', ''1'')] = [''1'', [], [], [], [], [], [], [], [], [], [], [], []]"
proof -
  let ?e = "lookup_env (Completed 0 full_stdout [])"
  let ?st3 = "\<lparr>trace = [Print (MsgWaiting 30), Sleep 30, Print (MsgFetching ''ann''),
      Run [''toutatis'', ''-u'', ''ann'', ''-s'', ''sess'']], sheet = (\<lambda>r. None)\<rparr>"
  have po: "parse_output full_stdout =
     [(''Informations about'', ''ann''), (''userID'', ''4242''), (''Full Name'', ''Ann Lee''),
      (''Verified'', ''False''), (''Is buisness Account'', ''True''),
      (''Is private Account'', ''False''), (''Follower'', ''120''), (''Following'', ''85''),
      (''Number of posts'', ''12''), (''IGTV posts'', ''0''), (''Biography'', ''Love travel''),
      (''Linked WhatsApp'', ''False''), (''Memorial Account'', ''False''),
      (''New Instagram user'', ''False'')]"
    by (simp add: full_stdout_def parse_output_def parse_line_def split_colon_def strip_def
        isspace_def assign_part_def Let_def)
  have h1: "\<not> (has_data (''ann'' # []) \<and> \<not> False)" by (simp add: has_data_def)
  have h2: "get_instagram_data ?e (strip ''ann'') ''sess'' (rate_wait (batch_pause 2 init_state))
             = (Some (parse_output full_stdout), ?st3)"
    by (simp add: lookup_env_def init_state_def emit_def batch_pause_def rate_wait_def
        get_instagram_data_def strip_def isspace_def BATCH_SIZE_def RATE_LIMIT_DELAY_def Let_def)
  have h3: "parse_output full_stdout \<noteq> []" by (simp add: po)
  have rn: "range_name 2 = ''G2:S2''"
    by (simp add: range_name_def OUTPUT_RANGE_START_def str_nat.simps digit_char_def)
  have nr: "\<not> update_raises ?e (trace ?st3) ''sheet1'' (range_name 2) [row_values (parse_output full_stdout)]"
    by (simp add: lookup_env_def)
  have "sheet (process_row ?e ''sheet1'' ''sess'' False 2 [''ann''] init_state) ''G2:S2'' =
     Some [row_values (parse_output full_stdout)]"
    using written_row_positional [OF h1 h2 h3, of "''sheet1''"] nr by (simp add: rn)
  moreover have "row_values (parse_output full_stdout) = 
     [''120'', ''85'', ''12'', ''Love travel'', ''Ann Lee'', ''False'', ''False'', ''True'',
            ''4242'', ''0'', ''False'', ''False'', ''False'']"
    by (simp add: po row_values_def dict_get_def)
  moreover have "row_values [(''Follower'', ''1'')] = [''1'', [], [], [], [], [], [], [], [], [], [], [], []]"
    by (simp add: row_values_def dict_get_def)
  ultimately show ?thesis by simp
qed

text \<open>
  C8: when the lookup of a non-empty user name raises or exits with a non-zero return
  code, \<open>get_instagram_data\<close> returns \<open>None\<close> and only prints a message after the call;
  the row's body ends without an exception and without touching the sheet, and the loop
  goes on with the next row.
\<close>

theorem lookup_failure_is_soft:
  assumes "row = cell0 # cells" and "\<not> (has_data row \<and> \<not> force)"
    and "username = strip cell0" and "username \<noteq> []"
    and "st2 = rate_wait (batch_pause idx st)"
    and "argv = [''toutatis'', ''-u'', strip username, ''-s'', sess]"
    and "run_toutatis e (trace (emit (Print (MsgFetching username)) st2)) argv = outcome"
    and "outcome = Raised \<or> (\<exists>rc out err. outcome = Completed rc out err \<and> rc \<noteq> 0)"
    and "msg = (case outcome of Raised \<Rightarrow> MsgException username
                | Completed rc out err \<Rightarrow> MsgErrorFetching username err)"
    and "st' = emit (Print msg) (emit (Run argv) (emit (Print (MsgFetching username)) st2))"
  shows "get_instagram_data e username sess st2 = (None, st')
         \<and> row_body e sid sess force idx row st = Inr st'
         \<and> process_row e sid sess force idx row st = st'
         \<and> sheet st' = sheet st
         \<and> rows_loop e sid sess force idx (row # rest) st =
             rows_loop e sid sess force (Suc idx) rest st'"
proof -
  have g: "get_instagram_data e username sess st2 = (None, st')"
    using assms(4,8) unfolding assms(10) assms(9) assms(7) [symmetric] assms(6)
    by (auto simp: get_instagram_data_def Let_def)
  then have g': "get_instagram_data e (strip cell0) sess (rate_wait (batch_pause idx st)) = (None, st')"
    by (simp add: assms(3,5))
  from assms(2) have ns: "\<not> (has_data (cell0 # cells) \<and> \<not> force)" by (simp add: assms(1))
  have rb: "row_body e sid sess force idx row st = Inr st'"
    by (simp add: assms(1) row_body_fetch [OF ns g'])
  then have pr: "process_row e sid sess force idx row st = st'"
    by (simp add: process_row_def)
  have sh: "sheet st' = sheet st"
    by (simp add: assms(10) assms(5) sheet_emit sheet_rate_wait sheet_batch_pause)
  from g rb pr sh show ?thesis by simp
qed

theorem lookup_failure_is_soft_witness:
  "process_row (lookup_env Raised) ''sheet1'' ''sess'' False 2 [''alice''] init_state =
     \<lparr>trace = [Print (MsgWaiting 30), Sleep 30, Print (MsgFetching ''alice''),
               Run [''toutatis'', ''-u'', ''alice'', ''-s'', ''sess''],
               Print (MsgException ''alice'')],
      sheet = (\<lambda>r. None)\<rparr>
   \<and> process_row (lookup_env (Completed 1 [] ''not found'')) ''sheet1'' ''sess'' False 2 [''alice'']
       init_state =
     \<lparr>trace = [Print (MsgWaiting 30), Sleep 30, Print (MsgFetching ''alice''),
               Run [''toutatis'', ''-u'', ''alice'', ''-s'', ''sess''],
               Print (MsgErrorFetching ''alice'' ''not found'')],
      sheet = (\<lambda>r. None)\<rparr>"
proof -
  have s: "strip ''alice'' = ''alice''" by (simp add: strip_def isspace_def)
  have st2: "rate_wait (batch_pause 2 init_state) =
      \<lparr>trace = [Print (MsgWaiting 30), Sleep 30], sheet = (\<lambda>r. None)\<rparr>"
    by (simp add: init_state_def emit_def batch_pause_def rate_wait_def RATE_LIMIT_DELAY_def)
  have h2: "\<not> (has_data [''alice''] \<and> \<not> False)" by (simp add: has_data_def)
  have h4: "''alice'' \<noteq> []" by simp
  have a: "process_row (lookup_env Raised) ''sheet1'' ''sess'' False 2 [''alice''] init_state =
     \<lparr>trace = [Print (MsgWaiting 30), Sleep 30, Print (MsgFetching ''alice''),
               Run [''toutatis'', ''-u'', ''alice'', ''-s'', ''sess''],
               Print (MsgException ''alice'')],
      sheet = (\<lambda>r. None)\<rparr>"
    using lookup_failure_is_soft [OF refl h2 s [symmetric] h4 refl refl refl _ refl refl,
        of "lookup_env Raised" "2" init_state "''sess''" "''sheet1''" "[]"]
    by (simp add: lookup_env_def st2 s emit_def)
  have b: "process_row (lookup_env (Completed 1 [] ''not found'')) ''sheet1'' ''sess'' False 2 [''alice'']
       init_state =
     \<lparr>trace = [Print (MsgWaiting 30), Sleep 30, Print (MsgFetching ''alice''),
               Run [''toutatis'', ''-u'', ''alice'', ''-s'', ''sess''],
               Print (MsgErrorFetching ''alice'' ''not found'')],
      sheet = (\<lambda>r. None)\<rparr>"
    using lookup_failure_is_soft [OF refl h2 s [symmetric] h4 refl refl refl _ refl refl,
        of "lookup_env (Completed 1 [] ''not found'')" "2" init_state "''sess''" "''sheet1''" "[]"]
    by (simp add: lookup_env_def st2 s emit_def)
  from a b show ?thesis by simp
qed

text \<open>
  C9: when the fetch of a row that is not skipped returns \<open>None\<close> or the empty
  dictionary, the iteration ends in the state the fetch left: no update call is issued
  and the sheet is unchanged. The empty dictionary is what a lookup returns that
  completes with return code 0 and prints no line with a colon.
\<close>

theorem no_data_no_update:
  assumes "row = cell0 # cells" and "\<not> (has_data row \<and> \<not> force)"
    and "get_instagram_data e (strip cell0) sess (rate_wait (batch_pause idx st)) = (data, st3)"
    and "data = None \<or> data = Some []"
  shows "process_row e sid sess force idx row st = st3
         \<and> sheet st3 = sheet st
         \<and> filter is_update (trace st3) = filter is_update (trace st)
         \<and> (\<forall>u s out err.
               u \<noteq> []
               \<and> run_toutatis e (trace (emit (Print (MsgFetching u)) s))
                   [''toutatis'', ''-u'', strip u, ''-s'', sess] = Completed 0 out err
               \<and> (\<forall>line\<in>set (split_str [CHR 0x0A] out). CHR '':'' \<notin> set line)
               \<longrightarrow> fst (get_instagram_data e u sess s) = Some [])"
proof -
  from assms(2) have ns: "\<not> (has_data (cell0 # cells) \<and> \<not> force)" by (simp add: assms(1))
  have pr: "process_row e sid sess force idx row st = st3"
    using assms(4) by (auto simp: process_row_def assms(1) row_body_fetch [OF ns assms(3)])
  have sh: "sheet st3 = sheet st"
    using sheet_get_instagram_data [of e "strip cell0" sess "rate_wait (batch_pause idx st)"]
    by (simp add: assms(3) sheet_rate_wait sheet_batch_pause)
  have up: "filter is_update (trace st3) = filter is_update (trace st)"
    using updates_get_instagram_data [of e "strip cell0" sess "rate_wait (batch_pause idx st)"]
    by (simp add: assms(3) updates_rate_wait updates_batch_pause)
  have em: "\<forall>u s out err.
               u \<noteq> []
               \<and> run_toutatis e (trace (emit (Print (MsgFetching u)) s))
                   [''toutatis'', ''-u'', strip u, ''-s'', sess] = Completed 0 out err
               \<and> (\<forall>line\<in>set (split_str [CHR 0x0A] out). CHR '':'' \<notin> set line)
               \<longrightarrow> fst (get_instagram_data e u sess s) = Some []"
    by (simp add: get_instagram_data_def Let_def parse_output_Nil_iff)
  from pr sh up em show ?thesis by simp
qed

theorem no_data_no_update_witness:
  "process_row (lookup_env (Completed 0 ''no output for bob'' [])) ''sheet1'' ''sess'' False 2 [''bob'']
       init_state =
     \<lparr>trace = [Print (MsgWaiting 30), Sleep 30, Print (MsgFetching ''bob''),
               Run [''toutatis'', ''-u'', ''bob'', ''-s'', ''sess'']],
      sheet = (\<lambda>r. None)\<rparr>"
proof -
  let ?e = "lookup_env (Completed 0 ''no output for bob'' [])"
  let ?st3 = "\<lparr>trace = [Print (MsgWaiting 30), Sleep 30, Print (MsgFetching ''bob''),
               Run [''toutatis'', ''-u'', ''bob'', ''-s'', ''sess'']],
      sheet = (\<lambda>r. None)\<rparr>"
  have h2: "\<not> (has_data [''bob''] \<and> \<not> False)" by (simp add: has_data_def)
  have h3: "get_instagram_data ?e (strip ''bob'') ''sess'' (rate_wait (batch_pause 2 init_state))
             = (Some [], ?st3)"
    by (simp add: lookup_env_def init_state_def emit_def batch_pause_def rate_wait_def
        get_instagram_data_def strip_def isspace_def BATCH_SIZE_def RATE_LIMIT_DELAY_def Let_def
        parse_output_def parse_line_def)
  have h4: "Some ([]::dict) = None \<or> Some ([]::dict) = Some []" by simp
  from no_data_no_update [OF refl h2 h3 h4, of "''sheet1''"] show ?thesis by simp
qed

end
